theory Spec2Isabelle
  imports Complex_Main "HOL-Library.Sublist"
begin

section \<open>JavaScript strings and arrays\<close>

text \<open>
  The bot of \<^verbatim>\<open>src/app.js\<close> works on JavaScript strings. They are modelled as
  \<^typ>\<open>string\<close>, one \<^typ>\<open>char\<close> per code unit, and the embedding covers ASCII text:
  \<^verbatim>\<open>toLowerCase\<close> maps \<^verbatim>\<open>A\<close>..\<^verbatim>\<open>Z\<close> to \<^verbatim>\<open>a\<close>..\<^verbatim>\<open>z\<close> and leaves every other
  character alone, \<^verbatim>\<open>trim\<close> strips the ASCII white space and line terminators
  (TAB, LF, VT, FF, CR, SPACE), and \<^verbatim>\<open>length\<close> counts characters.
\<close>

definition isUpperCase :: "char \<Rightarrow> bool" where
  "isUpperCase c = (65 \<le> (of_char c :: nat) \<and> (of_char c :: nat) \<le> 90)"

definition toLowerCase_char :: "char \<Rightarrow> char" where
  "toLowerCase_char c = (if isUpperCase c then char_of ((of_char c :: nat) + 32) else c)"

text \<open>\<^verbatim>\<open>String.prototype.toLowerCase\<close>.\<close>

definition toLowerCase :: "string \<Rightarrow> string" where
  "toLowerCase s = map toLowerCase_char s"

definition isWhiteSpace :: "char \<Rightarrow> bool" where
  "isWhiteSpace c = ((of_char c :: nat) \<in> {9, 10, 11, 12, 13, 32})"

text \<open>\<^verbatim>\<open>String.prototype.trim\<close>: white space is removed at both ends only.\<close>

definition trim :: "string \<Rightarrow> string" where
  "trim s = rev (dropWhile isWhiteSpace (rev (dropWhile isWhiteSpace s)))"

text \<open>
  \<^verbatim>\<open>String.prototype.includes\<close>: \<open>str_includes s t\<close> is \<^verbatim>\<open>s.includes(t)\<close>, true when
  \<open>t\<close> occurs in \<open>s\<close> as a contiguous run of characters. The search tries every
  start position of \<open>s\<close> from the left.
\<close>

fun str_includes :: "string \<Rightarrow> string \<Rightarrow> bool" where
  "str_includes [] t = (t = [])"
| "str_includes (c # cs) t = (prefix t (c # cs) \<or> str_includes cs t)"

text \<open>
  \<^verbatim>\<open>s.split(',')\<close>: the pieces between the commas, empty pieces kept; the empty
  string gives one empty piece.
\<close>

fun split_comma :: "string \<Rightarrow> string list" where
  "split_comma [] = [[]]"
| "split_comma (c # cs) =
     (if c = CHR '','' then [] # split_comma cs
      else (case split_comma cs of
              [] \<Rightarrow> [[c]]
            | w # ws \<Rightarrow> (c # w) # ws))"

text \<open>\<^verbatim>\<open>Array.prototype.includes\<close> on an array of strings.\<close>

fun arr_includes :: "'a list \<Rightarrow> 'a \<Rightarrow> bool" where
  "arr_includes [] x = False"
| "arr_includes (y # ys) x = (y = x \<or> arr_includes ys x)"


section \<open>The allowlist\<close>

text \<open>
  Lines 9 to 11:
  \<^verbatim>\<open>
  const ALLOWED_GUILDS = process.env.ALLOWED_GUILDS
      ? process.env.ALLOWED_GUILDS.split(',').map(id => id.trim())
      : [];
  \<close>
  The environment variable is absent (\<open>None\<close>) or a string; the empty string is
  falsy, so it takes the second branch as an absent variable does.
\<close>

definition ALLOWED_GUILDS :: "string option \<Rightarrow> string list" where
  "ALLOWED_GUILDS env =
     (case env of
        None \<Rightarrow> []
      | Some s \<Rightarrow> if s = [] then [] else map trim (split_comma s))"

text \<open>
  The guard of lines 91, 106 and 186, \<^verbatim>\<open>ALLOWED_GUILDS.includes(guild.id)\<close>, which
  the specification calls \<open>isAllowed(communityId, allowlist)\<close>.
\<close>

definition isAllowed :: "string \<Rightarrow> string list \<Rightarrow> bool" where
  "isAllowed communityId allowlist = arr_includes allowlist communityId"


section \<open>The index loader\<close>

text \<open>
  What the content API sends back is a JavaScript value parsed from JSON. Nothing
  in \<^verbatim>\<open>fetchWikiPages\<close> checks its shape, so the model keeps the value untyped and
  writes out where reading it throws.
\<close>

datatype jsval =
    JUndefined
  | JNull
  | JBool bool
  | JNum real
  | JStr string
  | JArr "jsval list"
  | JObj "(string \<times> jsval) list"

datatype js_error = TypeError | RequestError

text \<open>
  \<open>getProp v k\<close> is the property read \<^verbatim>\<open>v.k\<close>, for the data keys the source reads
  (\<^verbatim>\<open>data\<close>, \<^verbatim>\<open>pages\<close>, \<^verbatim>\<open>list\<close>, \<^verbatim>\<open>isPrivate\<close>, \<^verbatim>\<open>title\<close>, \<^verbatim>\<open>path\<close>, \<^verbatim>\<open>tags\<close>), none
  of which names a built-in property: reading from \<^verbatim>\<open>undefined\<close> or \<^verbatim>\<open>null\<close> throws a
  TypeError, an object gives the property's value or \<^verbatim>\<open>undefined\<close>, and every other
  value gives \<^verbatim>\<open>undefined\<close>. An object is the list of its properties, each key
  once; the read takes the first entry with the key.
\<close>

fun getProp :: "jsval \<Rightarrow> string \<Rightarrow> js_error + jsval" where
  "getProp JUndefined k = Inl TypeError"
| "getProp JNull k = Inl TypeError"
| "getProp (JObj ps) k = Inr (case map_of ps k of None \<Rightarrow> JUndefined | Some v \<Rightarrow> v)"
| "getProp (JBool b) k = Inr JUndefined"
| "getProp (JNum n) k = Inr JUndefined"
| "getProp (JStr s) k = Inr JUndefined"
| "getProp (JArr xs) k = Inr JUndefined"

text \<open>Truthiness, as \<^verbatim>\<open>!page.isPrivate\<close> tests it.\<close>

fun truthy :: "jsval \<Rightarrow> bool" where
  "truthy JUndefined = False"
| "truthy JNull = False"
| "truthy (JBool b) = b"
| "truthy (JNum n) = (n \<noteq> 0)"
| "truthy (JStr s) = (s \<noteq> [])"
| "truthy (JArr xs) = True"
| "truthy (JObj ps) = True"

text \<open>
  \<^verbatim>\<open>v.filter(...)\<close> and \<^verbatim>\<open>v.map(...)\<close> need \<open>v\<close> to be an array and
  \<^verbatim>\<open>v.toLowerCase()\<close> needs it to be a string: on any other parsed value the method
  is missing (or the receiver is \<^verbatim>\<open>null\<close>) and the call throws a TypeError.
\<close>

fun asArray :: "jsval \<Rightarrow> js_error + jsval list" where
  "asArray (JArr xs) = Inr xs"
| "asArray v = Inl TypeError"

fun call_toLowerCase :: "jsval \<Rightarrow> js_error + string" where
  "call_toLowerCase (JStr s) = Inr (toLowerCase s)"
| "call_toLowerCase v = Inl TypeError"

text \<open>Sequencing of steps that may throw: the first exception ends the computation.\<close>

definition andThen :: "js_error + 'a \<Rightarrow> ('a \<Rightarrow> js_error + 'b) \<Rightarrow> js_error + 'b" where
  "andThen m f = (case m of Inl e \<Rightarrow> Inl e | Inr x \<Rightarrow> f x)"

text \<open>
  \<^verbatim>\<open>Array.prototype.filter\<close> and \<^verbatim>\<open>Array.prototype.map\<close> with a callback that may
  throw: the elements are visited from the left and an exception leaves the loop.
\<close>

fun filter_throwing :: "('a \<Rightarrow> js_error + bool) \<Rightarrow> 'a list \<Rightarrow> js_error + 'a list" where
  "filter_throwing f [] = Inr []"
| "filter_throwing f (x # xs) =
     andThen (f x) (\<lambda>keep.
     andThen (filter_throwing f xs) (\<lambda>ys.
     Inr (if keep then x # ys else ys)))"

fun map_throwing :: "('a \<Rightarrow> js_error + 'b) \<Rightarrow> 'a list \<Rightarrow> js_error + 'b list" where
  "map_throwing f [] = Inr []"
| "map_throwing f (x # xs) =
     andThen (f x) (\<lambda>y.
     andThen (map_throwing f xs) (\<lambda>ys.
     Inr (y # ys)))"

text \<open>
  An entry of the index, as the object literal of lines 32 to 37 builds it. The
  \<^verbatim>\<open>title\<close> is the string whose \<^verbatim>\<open>toLowerCase()\<close> gave \<^verbatim>\<open>lowercaseTitle\<close>; the
  \<^verbatim>\<open>path\<close> is stored as it came, whatever value it is.
\<close>

record wiki_page =
  title :: string
  path :: jsval
  lowercaseTitle :: string
  tags :: "string list"

text \<open>The callback of \<^verbatim>\<open>.filter\<close>, line 31: \<^verbatim>\<open>page => !page.isPrivate\<close>.\<close>

definition notPrivate :: "jsval \<Rightarrow> js_error + bool" where
  "notPrivate page = andThen (getProp page ''isPrivate'') (\<lambda>p. Inr (\<not> truthy p))"

text \<open>
  The callback of \<^verbatim>\<open>.map\<close>, lines 32 to 37. Its last step reads back the string
  that \<open>call_toLowerCase\<close> accepted as the title; the other branch is never
  taken.
\<close>

definition toIndexEntry :: "jsval \<Rightarrow> js_error + wiki_page" where
  "toIndexEntry page =
     andThen (getProp page ''title'') (\<lambda>t.
     andThen (getProp page ''path'') (\<lambda>p.
     andThen (call_toLowerCase t) (\<lambda>lt.
     andThen (getProp page ''tags'') (\<lambda>tgs.
     andThen (asArray tgs) (\<lambda>tagList.
     andThen (map_throwing call_toLowerCase tagList) (\<lambda>lowered.
     (case t of
        JStr s \<Rightarrow> Inr \<lparr>title = s, path = p, lowercaseTitle = lt, tags = lowered\<rparr>
      | _ \<Rightarrow> Inl TypeError)))))))"

text \<open>
  The body of the \<^verbatim>\<open>try\<close> block, lines 15 to 37. Its argument is the outcome of
  \<^verbatim>\<open>await axios.post(...)\<close>: a rejection (\<open>Inl\<close>), or the parsed body
  \<^verbatim>\<open>response.data\<close> of the response.
\<close>

definition fetchWikiPages_try :: "js_error + jsval \<Rightarrow> js_error + wiki_page list" where
  "fetchWikiPages_try post =
     andThen post (\<lambda>body.
     andThen (getProp body ''data'') (\<lambda>d.
     andThen (getProp d ''pages'') (\<lambda>pages.
     andThen (getProp pages ''list'') (\<lambda>lst.
     andThen (asArray lst) (\<lambda>listing.
     andThen (filter_throwing notPrivate listing) (\<lambda>kept.
     map_throwing toIndexEntry kept))))))"

text \<open>
  \<^verbatim>\<open>fetchWikiPages\<close>, lines 13 to 42. The result is what the function hands to its
  caller, after the lines it wrote to the console: \<open>Inr\<close> a returned array,
  \<open>Inl\<close> an exception that leaves the function. The \<^verbatim>\<open>catch\<close> clause logs
  and returns the empty array.
\<close>

definition fetchWikiPages :: "js_error + jsval \<Rightarrow> string list \<times> (js_error + wiki_page list)" where
  "fetchWikiPages post =
     (case fetchWikiPages_try post of
        Inr pages \<Rightarrow> ([], Inr pages)
      | Inl error \<Rightarrow> ([''Error fetching wiki pages:''], Inr []))"

text \<open>
  The page listing of a response body, \<^verbatim>\<open>response.data.data.pages.list\<close>, when the
  body has one.
\<close>

definition listingOf :: "jsval \<Rightarrow> jsval list option" where
  "listingOf body =
     (case andThen (getProp body ''data'') (\<lambda>d.
           andThen (getProp d ''pages'') (\<lambda>pages.
           andThen (getProp pages ''list'') asArray)) of
        Inr listing \<Rightarrow> Some listing
      | Inl e \<Rightarrow> None)"

text \<open>The value of a page's \<^verbatim>\<open>isPrivate\<close> field is true (taken as a condition).\<close>

definition isPrivate :: "jsval \<Rightarrow> bool" where
  "isPrivate page = (case getProp page ''isPrivate'' of Inr p \<Rightarrow> truthy p | Inl e \<Rightarrow> False)"


text \<open>
  An index entry is the normalised form of a page of the listing: same title and
  path, the title lower-cased into \<^verbatim>\<open>lowercaseTitle\<close>, the tags lower-cased one by
  one.
\<close>

definition normalisedFrom :: "jsval \<Rightarrow> wiki_page \<Rightarrow> bool" where
  "normalisedFrom raw p =
     (getProp raw ''title'' = Inr (JStr (title p))
      \<and> getProp raw ''path'' = Inr (path p)
      \<and> lowercaseTitle p = toLowerCase (title p)
      \<and> (\<exists>rawTags. getProp raw ''tags'' = Inr (JArr (map JStr rawTags))
                    \<and> tags p = map toLowerCase rawTags))"


section \<open>The search matcher\<close>

text \<open>A suggestion handed to \<^verbatim>\<open>interaction.respond\<close>: \<^verbatim>\<open>{ name, value }\<close>.\<close>

record candidate =
  cname :: string
  cvalue :: jsval

definition start_typing :: candidate where
  "start_typing =
     \<lparr>cname = ''Start typing to search wiki pages (min 3 characters)'',
      cvalue = JStr ''start_typing''\<rparr>"

definition no_results :: candidate where
  "no_results =
     \<lparr>cname = ''No wiki pages found. Try a different search.'',
      cvalue = JStr ''no_results''\<rparr>"

text \<open>
  The predicate of \<^verbatim>\<open>.filter\<close>, lines 134 to 137:
  \<^verbatim>\<open>
  page.lowercaseTitle.includes(focusedValue.toLowerCase()) ||
  page.tags.some(tag => tag.toLowerCase().includes(focusedValue.toLowerCase()))
  \<close>
\<close>

definition matches :: "string \<Rightarrow> wiki_page \<Rightarrow> bool" where
  "matches focusedValue page =
     (str_includes (lowercaseTitle page) (toLowerCase focusedValue)
      \<or> list_ex (\<lambda>tag. str_includes (toLowerCase tag) (toLowerCase focusedValue)) (tags page))"

text \<open>The callback of \<^verbatim>\<open>.map\<close>, lines 139 to 142.\<close>

definition toCandidate :: "wiki_page \<Rightarrow> candidate" where
  "toCandidate page = \<lparr>cname = title page, cvalue = path page\<rparr>"

text \<open>
  The autocomplete branch, lines 121 to 154, as a function of the index and of the
  focused value: the array it passes to \<^verbatim>\<open>interaction.respond\<close>. The specification
  calls it \<open>search(index, rawQuery)\<close>. \<^verbatim>\<open>.slice(0, 25)\<close> is \<open>take 25\<close>.
\<close>

definition search :: "wiki_page list \<Rightarrow> string \<Rightarrow> candidate list" where
  "search wikiPages focusedValue =
     (if length focusedValue < 3 then [start_typing]
      else
        (let filtered = map toCandidate (take 25 (filter (matches focusedValue) wikiPages))
         in if length filtered = 0 then [no_results] else filtered))"


section \<open>The command dispatcher\<close>

record guild =
  guild_id :: string
  guild_name :: string

text \<open>
  An interaction is an autocomplete request carrying the focused value
  (\<^verbatim>\<open>options.getFocused()\<close>), a chat input command carrying its name and the value
  of its \<^verbatim>\<open>query\<close> option (\<^verbatim>\<open>options.getString('query')\<close>; the option is registered
  as required, line 71, so it is a string), or of another kind. Its guild may be
  absent.
\<close>

datatype interaction_kind =
    Autocomplete string
  | ChatInputCommand string string
  | OtherInteraction

record interaction =
  guild :: "guild option"
  kind :: interaction_kind

definition isAutocomplete :: "interaction \<Rightarrow> bool" where
  "isAutocomplete i = (case kind i of Autocomplete f \<Rightarrow> True | _ \<Rightarrow> False)"

definition isChatInputCommand :: "interaction \<Rightarrow> bool" where
  "isChatInputCommand i = (case kind i of ChatInputCommand n q \<Rightarrow> True | _ \<Rightarrow> False)"

text \<open>The environment variables the handler depends on.\<close>

record process_env =
  ALLOWED_GUILDS_var :: "string option"
  WIKI_BASE_URL :: "string option"

text \<open>A value of the environment inside a template literal: an absent one prints as
  \<^verbatim>\<open>undefined\<close>.\<close>

definition templateValue :: "string option \<Rightarrow> string" where
  "templateValue v = (case v of None \<Rightarrow> ''undefined'' | Some s \<Rightarrow> s)"

text \<open>
  What the handler does to the outside: \<open>Reply content ephemeral\<close> is
  \<^verbatim>\<open>interaction.reply({content, ephemeral})\<close>, \<open>Respond cs\<close> is
  \<^verbatim>\<open>interaction.respond(cs)\<close>, \<open>ConsoleLog\<close> a line on the console.
\<close>

datatype effect =
    Reply string bool
  | Respond "candidate list"
  | ConsoleLog string

text \<open>The condition of line 106.\<close>

definition unauthorized :: "process_env \<Rightarrow> interaction \<Rightarrow> bool" where
  "unauthorized env i =
     (case guild i of
        None \<Rightarrow> True
      | Some g \<Rightarrow> \<not> isAllowed (guild_id g) (ALLOWED_GUILDS (ALLOWED_GUILDS_var env)))"

text \<open>
  The \<^verbatim>\<open>interactionCreate\<close> handler, lines 105 to 179. Each path through it awaits
  at most one call of the chat platform; \<open>sdk\<close> is what that call does: \<open>None\<close> when
  it succeeds, \<open>Some e\<close> when it throws \<open>e\<close>. The result is the list of effects in the
  order they were attempted, and the exception that leaves the handler, if one
  does.

  In the unauthorized branch the call is inside \<^verbatim>\<open>try\<close>; its \<^verbatim>\<open>catch\<close> clause logs
  \<^verbatim>\<open>interaction.guild.name\<close>, which throws a TypeError when the guild is absent.
  The other calls are not inside a \<^verbatim>\<open>try\<close>.
\<close>

definition interactionCreate ::
  "process_env \<Rightarrow> wiki_page list \<Rightarrow> js_error option \<Rightarrow> interaction
     \<Rightarrow> effect list \<times> js_error option" where
  "interactionCreate env wikiPages sdk i =
     (if unauthorized env i then
        (if isChatInputCommand i \<or> isAutocomplete i then
           (case sdk of
              None \<Rightarrow>
                ([Reply ''This bot is not authorized to operate in this server.'' True], None)
            | Some error \<Rightarrow>
                (case guild i of
                   None \<Rightarrow>
                     ([Reply ''This bot is not authorized to operate in this server.'' True],
                      Some TypeError)
                 | Some g \<Rightarrow>
                     ([Reply ''This bot is not authorized to operate in this server.'' True,
                       ConsoleLog (''Could not send unauthorized message in '' @ guild_name g)],
                      None)))
         else ([], None))
      else
        (case kind i of
           Autocomplete focusedValue \<Rightarrow> ([Respond (search wikiPages focusedValue)], sdk)
         | ChatInputCommand commandName selectedPage \<Rightarrow>
             (if commandName = ''wiki'' then
                (if selectedPage = ''start_typing'' \<or> selectedPage = ''no_results'' then
                   ([Reply ''Please select a valid wiki page.'' True], sdk)
                 else
                   (let pageInfo = find (\<lambda>page. path page = JStr selectedPage) wikiPages;
                        pageTitle = (case pageInfo of
                                       Some page \<Rightarrow> title page
                                     | None \<Rightarrow> ''Unknown Page'');
                        pageUrl = templateValue (WIKI_BASE_URL env) @ ''/'' @ selectedPage
                    in ([Reply (''**'' @ pageTitle @ ''**: '' @ pageUrl) False], sdk)))
              else ([], None))
         | OtherInteraction \<Rightarrow> ([], None)))"


section \<open>Concrete inputs\<close>

text \<open>The index of the specification's scenarios: one page, \<^verbatim>\<open>Setup Guide\<close>.\<close>

definition setup_page :: wiki_page where
  "setup_page =
     \<lparr>title = ''Setup Guide'', path = JStr ''setup'',
      lowercaseTitle = ''setup guide'', tags = [''install'']\<rparr>"

text \<open>A response body of the content API listing a public and a private page.\<close>

definition example_listing :: "jsval list" where
  "example_listing =
     [JObj [(''id'', JNum 1), (''title'', JStr ''Setup Guide''), (''path'', JStr ''setup''),
            (''tags'', JArr [JStr ''Install'']), (''isPrivate'', JBool False)],
      JObj [(''id'', JNum 2), (''title'', JStr ''Staff Notes''), (''path'', JStr ''staff''),
            (''tags'', JArr []), (''isPrivate'', JBool True)]]"

definition example_body :: jsval where
  "example_body = JObj [(''data'', JObj [(''pages'', JObj [(''list'', JArr example_listing)])])]"

text \<open>An index of 26 pages with distinct paths, every title containing \<^verbatim>\<open>abc\<close>.\<close>

definition numbered_page :: "nat \<Rightarrow> wiki_page" where
  "numbered_page n =
     \<lparr>title = ''Abc'', path = JStr (CHR ''p'' # replicate n (CHR ''x'')),
      lowercaseTitle = ''abc'', tags = []\<rparr>"

definition many_pages :: "wiki_page list" where
  "many_pages = map numbered_page [0..<26]"

text \<open>A configuration that admits the communities \<^verbatim>\<open>123\<close> and \<^verbatim>\<open>456\<close>.\<close>

definition example_env :: process_env where
  "example_env =
     \<lparr>ALLOWED_GUILDS_var = Some ''123, 456'', WIKI_BASE_URL = Some ''https://wiki.example''\<rparr>"



section \<open>Facts about the string and array primitives\<close>

lemma arr_includes_set: "arr_includes ys x \<longleftrightarrow> x \<in> set ys"
  by (induction ys) auto

lemma str_includes_sublist: "str_includes s t \<longleftrightarrow> sublist t s"
  by (induction s) (simp_all add: sublist_Cons_right)

lemma str_includes_decomp: "str_includes s t \<longleftrightarrow> (\<exists>ps ss. s = ps @ t @ ss)"
  by (simp add: str_includes_sublist sublist_def)

lemma matches_substring:
  "matches q p \<longleftrightarrow>
     ((\<exists>before after. lowercaseTitle p = before @ toLowerCase q @ after)
      \<or> (\<exists>tag\<in>set (tags p). \<exists>before after. toLowerCase tag = before @ toLowerCase q @ after))"
  by (simp add: matches_def str_includes_decomp list_ex_iff)

lemma length_trim_le: "length (trim s) \<le> length s"
proof -
  have "length (trim s) \<le> length (rev (dropWhile isWhiteSpace s))"
    unfolding trim_def
    using length_dropWhile_le [of isWhiteSpace "rev (dropWhile isWhiteSpace s)"] by simp
  also have "\<dots> \<le> length s"
    using length_dropWhile_le [of isWhiteSpace s] by simp
  finally show ?thesis .
qed


section \<open>Allowlist guard\<close>

text \<open>
  C6. The allowlist guard is a membership test of the community identifier in
  the configured list and computes nothing else. With no allowlist configured
  (the variable unset or empty) the list is empty, every identifier is refused
  and the handler treats every interaction as unauthorized.
\<close>

theorem isAllowed_membership_fail_closed:
  "(isAllowed communityId allowlist \<longleftrightarrow> communityId \<in> set allowlist)
   \<and> \<not> isAllowed communityId []
   \<and> ALLOWED_GUILDS None = []
   \<and> ALLOWED_GUILDS (Some '''') = []
   \<and> \<not> isAllowed communityId (ALLOWED_GUILDS None)
   \<and> \<not> isAllowed communityId (ALLOWED_GUILDS (Some ''''))
   \<and> unauthorized \<lparr>ALLOWED_GUILDS_var = None, WIKI_BASE_URL = baseUrl\<rparr> i
   \<and> unauthorized \<lparr>ALLOWED_GUILDS_var = Some '''', WIKI_BASE_URL = baseUrl\<rparr> i"
  by (simp add: isAllowed_def arr_includes_set ALLOWED_GUILDS_def unauthorized_def
           split: option.split)


section \<open>The loader: what a successful run returns\<close>

lemma andThen_Inr: "andThen m f = Inr y \<longleftrightarrow> (\<exists>x. m = Inr x \<and> f x = Inr y)"
  by (cases m) (simp_all add: andThen_def)

lemma filter_throwing_Inr:
  "filter_throwing f xs = Inr ys \<Longrightarrow>
     ys = filter (\<lambda>x. f x = Inr True) xs \<and> (\<forall>x\<in>set xs. \<exists>b. f x = Inr b)"
proof (induction xs arbitrary: ys)
  case Nil
  then show ?case by simp
next
  case (Cons x xs)
  from Cons.prems obtain keep zs where
    k: "f x = Inr keep" and z: "filter_throwing f xs = Inr zs"
    and y: "ys = (if keep then x # zs else zs)"
    by (auto simp: andThen_Inr)
  from Cons.IH [OF z] k y show ?case by auto
qed

lemma map_throwing_Inr:
  "map_throwing f xs = Inr ys \<Longrightarrow> list_all2 (\<lambda>x y. f x = Inr y) xs ys"
proof (induction xs arbitrary: ys)
  case Nil
  then show ?case by simp
next
  case (Cons x xs)
  from Cons.prems obtain y zs where
    "f x = Inr y" "map_throwing f xs = Inr zs" "ys = y # zs"
    by (auto simp: andThen_Inr)
  with Cons.IH show ?case by simp
qed

lemma call_toLowerCase_Inr: "call_toLowerCase v = Inr l \<longleftrightarrow> (\<exists>s. v = JStr s \<and> l = toLowerCase s)"
  by (cases v) auto

lemma asArray_Inr: "asArray v = Inr xs \<longleftrightarrow> v = JArr xs"
  by (cases v) auto

lemma lowered_tags:
  "list_all2 (\<lambda>x y. call_toLowerCase x = Inr y) tagList lowered \<Longrightarrow>
     \<exists>rawTags. tagList = map JStr rawTags \<and> lowered = map toLowerCase rawTags"
proof (induction rule: list_all2_induct)
  case Nil
  then show ?case by simp
next
  case (Cons x xs y ys)
  then obtain s rawTags where "x = JStr s" "y = toLowerCase s"
    "xs = map JStr rawTags" "ys = map toLowerCase rawTags"
    by (auto simp: call_toLowerCase_Inr)
  then have "x # xs = map JStr (s # rawTags) \<and> y # ys = map toLowerCase (s # rawTags)"
    by simp
  then show ?case by (rule exI)
qed

lemma toIndexEntry_Inr:
  assumes "toIndexEntry page = Inr p"
  shows "normalisedFrom page p"
proof -
  from assms obtain s pth tagList lowered where
    t: "getProp page ''title'' = Inr (JStr s)" and
    pa: "getProp page ''path'' = Inr pth" and
    tg: "getProp page ''tags'' = Inr (JArr tagList)" and
    lw: "map_throwing call_toLowerCase tagList = Inr lowered" and
    p: "p = \<lparr>title = s, path = pth, lowercaseTitle = toLowerCase s, tags = lowered\<rparr>"
    unfolding toIndexEntry_def
    by (auto simp: andThen_Inr call_toLowerCase_Inr asArray_Inr)
  from lowered_tags [OF map_throwing_Inr [OF lw]] obtain rawTags where
    r: "tagList = map JStr rawTags" "lowered = map toLowerCase rawTags"
    by blast
  have "getProp page ''tags'' = Inr (JArr (map JStr rawTags)) \<and> tags p = map toLowerCase rawTags"
    using tg r p by simp
  then have "\<exists>rawTags. getProp page ''tags'' = Inr (JArr (map JStr rawTags))
                \<and> tags p = map toLowerCase rawTags"
    by (rule exI)
  with t pa p show ?thesis
    by (simp add: normalisedFrom_def)
qed

lemma notPrivate_Inr: "notPrivate page = Inr b \<Longrightarrow> b = (\<not> isPrivate page)"
  by (auto simp: notPrivate_def isPrivate_def andThen_Inr)

lemma toLowerCase_char_idem: "toLowerCase_char (toLowerCase_char c) = toLowerCase_char c"
  by (auto simp: toLowerCase_char_def isUpperCase_def of_char_of)

lemma toLowerCase_idem: "toLowerCase (toLowerCase s) = toLowerCase s"
  by (simp add: toLowerCase_def toLowerCase_char_idem)

lemma fetchWikiPages_try_Inr:
  assumes "fetchWikiPages_try post = Inr index"
  shows "\<exists>body listing. post = Inr body \<and> listingOf body = Some listing
           \<and> list_all2 normalisedFrom (filter (\<lambda>page. \<not> isPrivate page) listing) index"
proof -
  from assms obtain body d pages lst listing kept where
    p: "post = Inr body" and
    d: "getProp body ''data'' = Inr d" and
    pg: "getProp d ''pages'' = Inr pages" and
    l: "getProp pages ''list'' = Inr lst" and
    a: "asArray lst = Inr listing" and
    f: "filter_throwing notPrivate listing = Inr kept" and
    m: "map_throwing toIndexEntry kept = Inr index"
    unfolding fetchWikiPages_try_def by (auto simp: andThen_Inr)
  have lo: "listingOf body = Some listing"
    using d pg l a by (simp add: listingOf_def andThen_def)
  from filter_throwing_Inr [OF f]
  have k: "kept = filter (\<lambda>x. notPrivate x = Inr True) listing"
    and ok: "\<forall>x\<in>set listing. \<exists>b. notPrivate x = Inr b"
    by simp_all
  have "filter (\<lambda>x. notPrivate x = Inr True) listing = filter (\<lambda>page. \<not> isPrivate page) listing"
  proof (rule filter_cong [OF refl])
    fix x assume "x \<in> set listing"
    with ok obtain b where b: "notPrivate x = Inr b" by blast
    from notPrivate_Inr [OF b] b show "(notPrivate x = Inr True) = (\<not> isPrivate x)" by auto
  qed
  with k have k': "kept = filter (\<lambda>page. \<not> isPrivate page) listing" by simp
  have "list_all2 normalisedFrom kept index"
    using map_throwing_Inr [OF m] by (rule list_all2_mono) (rule toIndexEntry_Inr)
  with p lo k' show ?thesis by auto
qed


section \<open>The search matcher: short queries\<close>

text \<open>
  C1, as the code has it. The guard of line 123 measures the focused value as it
  was typed; nothing trims it. A focused value of fewer than 3 characters, white
  space included, gets exactly one suggestion, the \<^verbatim>\<open>start_typing\<close> sentinel,
  whatever the index holds.
\<close>

theorem search_short_query:
  "length focusedValue < 3 \<Longrightarrow>
     search wikiPages focusedValue = [start_typing] \<and> cvalue start_typing = JStr ''start_typing''"
  by (simp add: search_def start_typing_def)

theorem search_short_query_witness:
  "length ''se'' < 3 \<and> search [setup_page] ''se'' = [start_typing]
   \<and> cvalue start_typing = JStr ''start_typing''"
proof -
  have h: "length ''se'' < 3" by simp
  show ?thesis using h search_short_query [OF h, of "[setup_page]"] by simp
qed

text \<open>
  The claim as worded measures the query after trimming. The query \<^verbatim>\<open>"se "\<close> has
  two characters after trimming and three before: the code searches the index
  with it and suggests a real page.
\<close>

theorem search_trimmed_short_counterexample:
  "length (trim ''se '') < 3
   \<and> search [\<lparr>title = ''Rose Garden'', path = JStr ''rose'', lowercaseTitle = ''rose garden'', tags = []\<rparr>] ''se ''
       = [\<lparr>cname = ''Rose Garden'', cvalue = JStr ''rose''\<rparr>]
   \<and> search [\<lparr>title = ''Rose Garden'', path = JStr ''rose'', lowercaseTitle = ''rose garden'', tags = []\<rparr>] ''se ''
       \<noteq> [start_typing]"
  by code_simp


section \<open>The search matcher: the cap\<close>

text \<open>
  C5, as the code has it. The matcher never returns more than 25 candidates, for
  every index and every query. A page matches a query when the lower-cased query
  occurs in its \<^verbatim>\<open>lowercaseTitle\<close> or in the lower-casing of one of its tags. When
  the query has at least 3 characters and more than 25 pages match, the matcher
  returns exactly 25 candidates, those of the first 25 matching pages in the order
  of the index, each with the page's title as name and the page's path as value,
  and nothing reorders them. A query of fewer than 3 characters gets the single
  \<^verbatim>\<open>start_typing\<close> sentinel, however many pages contain it.
\<close>

theorem search_cap:
  "length (search wikiPages q) \<le> 25
   \<and> (\<forall>p. matches q p \<longleftrightarrow>
              ((\<exists>before after. lowercaseTitle p = before @ toLowerCase q @ after)
               \<or> (\<exists>tag\<in>set (tags p). \<exists>before after.
                      toLowerCase tag = before @ toLowerCase q @ after)))
   \<and> (3 \<le> length q \<and> 25 < length (filter (matches q) wikiPages) \<longrightarrow>
        search wikiPages q =
          map (\<lambda>p. \<lparr>cname = title p, cvalue = path p\<rparr>)
              (take 25 (filter (matches q) wikiPages))
        \<and> length (search wikiPages q) = 25)
   \<and> (length q < 3 \<longrightarrow>
        search wikiPages q =
          [\<lparr>cname = ''Start typing to search wiki pages (min 3 characters)'',
            cvalue = JStr ''start_typing''\<rparr>])"
proof -
  have cap: "length (search wikiPages q) \<le> 25"
    by (simp add: search_def Let_def)
  have first25: "search wikiPages q =
          map (\<lambda>p. \<lparr>cname = title p, cvalue = path p\<rparr>)
              (take 25 (filter (matches q) wikiPages))
        \<and> length (search wikiPages q) = 25"
    if "3 \<le> length q" "25 < length (filter (matches q) wikiPages)"
  proof -
    from that(2) have "filter (matches q) wikiPages \<noteq> []" by auto
    moreover have "toCandidate = (\<lambda>p. \<lparr>cname = title p, cvalue = path p\<rparr>)"
      by (rule ext) (simp add: toCandidate_def)
    ultimately show ?thesis using that by (simp add: search_def Let_def)
  qed
  have short: "search wikiPages q =
          [\<lparr>cname = ''Start typing to search wiki pages (min 3 characters)'',
            cvalue = JStr ''start_typing''\<rparr>]"
    if "length q < 3"
    using that by (simp add: search_def start_typing_def)
  from cap matches_substring first25 short show ?thesis by blast
qed

theorem search_cap_witness:
  "3 \<le> length ''abc'' \<and> 25 < length (filter (matches ''abc'') many_pages)
   \<and> search many_pages ''abc''
       = map (\<lambda>p. \<lparr>cname = title p, cvalue = path p\<rparr>)
             (take 25 (filter (matches ''abc'') many_pages))
   \<and> search many_pages ''abc''
       = map (\<lambda>n. \<lparr>cname = ''Abc'', cvalue = JStr (CHR ''p'' # replicate n (CHR ''x''))\<rparr>)
             [0..<25]
   \<and> length (search many_pages ''abc'') = 25
   \<and> length ''ab'' < 3
   \<and> search many_pages ''ab''
       = [\<lparr>cname = ''Start typing to search wiki pages (min 3 characters)'',
           cvalue = JStr ''start_typing''\<rparr>]"
proof -
  have h1: "3 \<le> length ''abc''" by simp
  have h2: "25 < length (filter (matches ''abc'') many_pages)" by code_simp
  have h3: "search many_pages ''abc''
       = map (\<lambda>n. \<lparr>cname = ''Abc'', cvalue = JStr (CHR ''p'' # replicate n (CHR ''x''))\<rparr>)
             [0..<25]"
    by code_simp
  have h4: "length ''ab'' < 3" by simp
  show ?thesis
    using h1 h2 h3 h4 search_cap [of many_pages "''abc''"] search_cap [of many_pages "''ab''"]
    by simp
qed

text \<open>
  The claim as worded speaks of every query. The query \<^verbatim>\<open>ab\<close> occurs in the
  title of each of the 26 pages, so more than 25 pages match it, and the matcher
  returns the sentinel, not the first 25 matching pages.
\<close>

theorem search_cap_short_query_counterexample:
  "25 < length (filter (matches ''ab'') many_pages)
   \<and> search many_pages ''ab'' = [start_typing]
   \<and> search many_pages ''ab''
       \<noteq> map (\<lambda>p. \<lparr>cname = title p, cvalue = path p\<rparr>)
             (take 25 (filter (matches ''ab'') many_pages))
   \<and> search many_pages ''ab'' \<noteq> map toCandidate (take 25 (filter (matches ''ab'') many_pages))"
  by code_simp


section \<open>The search matcher: letter case of the query\<close>

text \<open>
  C10. Two queries of the same length with the same lower-casing get the same
  suggestions from every index: the query reaches the comparisons only through
  its length and its lower-casing.
\<close>

theorem search_case_invariant:
  "length q1 = length q2 \<Longrightarrow> toLowerCase q1 = toLowerCase q2 \<Longrightarrow>
     search wikiPages q1 = search wikiPages q2"
proof -
  assume len: "length q1 = length q2" and low: "toLowerCase q1 = toLowerCase q2"
  have "matches q1 = matches q2"
    by (rule ext) (simp add: matches_def low)
  with len show ?thesis
    by (simp add: search_def)
qed

theorem search_case_invariant_witness:
  "length ''SeT'' = length ''set'' \<and> toLowerCase ''SeT'' = toLowerCase ''set''
   \<and> search [setup_page] ''SeT'' = search [setup_page] ''set''
   \<and> search [setup_page] ''set'' = [\<lparr>cname = ''Setup Guide'', cvalue = JStr ''setup''\<rparr>]"
proof -
  have h1: "length ''SeT'' = length ''set''" by simp
  have h2: "toLowerCase ''SeT'' = toLowerCase ''set''" by code_simp
  have h3: "search [setup_page] ''set'' = [\<lparr>cname = ''Setup Guide'', cvalue = JStr ''setup''\<rparr>]"
    by code_simp
  show ?thesis using h1 h2 h3 search_case_invariant [OF h1 h2, of "[setup_page]"] by simp
qed


section \<open>The loader never raises\<close>

text \<open>
  C3. Whatever the request does (it is rejected, or it resolves with any body at
  all), \<^verbatim>\<open>fetchWikiPages\<close> returns an array to its caller and no exception leaves
  it. When the request is rejected, or reading the body throws, the function logs
  one line and returns the empty array.
\<close>

theorem fetchWikiPages_never_raises:
  "(\<exists>console index. fetchWikiPages post = (console, Inr index))
   \<and> fetchWikiPages (Inl e) = ([''Error fetching wiki pages:''], Inr [])
   \<and> (fetchWikiPages_try post = Inl e \<longrightarrow>
        fetchWikiPages post = ([''Error fetching wiki pages:''], Inr []))"
  by (cases "fetchWikiPages_try post")
     (simp_all add: fetchWikiPages_def fetchWikiPages_try_def andThen_def)

theorem fetchWikiPages_never_raises_witness:
  "fetchWikiPages_try (Inr (JObj [(''data'', JNull)])) = Inl TypeError
   \<and> fetchWikiPages (Inr (JObj [(''data'', JNull)])) = ([''Error fetching wiki pages:''], Inr [])
   \<and> fetchWikiPages (Inl RequestError) = ([''Error fetching wiki pages:''], Inr [])"
proof -
  have h: "fetchWikiPages_try (Inr (JObj [(''data'', JNull)])) = Inl TypeError"
    by code_simp
  show ?thesis
    using h fetchWikiPages_never_raises [of "Inr (JObj [(''data'', JNull)])" TypeError]
      fetchWikiPages_never_raises [of "Inl RequestError" RequestError]
    by simp
qed


section \<open>The loader drops private pages and lower-cases\<close>

lemma list_all2_right_origin:
  assumes "list_all2 P xs ys" and "y \<in> set ys"
  shows "\<exists>x\<in>set xs. P x y"
proof -
  from assms(2) obtain i where i: "i < length ys" "ys ! i = y"
    by (auto simp: in_set_conv_nth)
  from assms(1) i have "i < length xs" "P (xs ! i) y"
    by (auto simp: list_all2_conv_all_nth)
  then show ?thesis by (metis nth_mem)
qed

lemma normalisedFrom_lowercase:
  assumes "normalisedFrom raw p"
  shows "lowercaseTitle p = toLowerCase (title p) \<and> (\<forall>t\<in>set (tags p). toLowerCase t = t)"
  using assms by (auto simp: normalisedFrom_def toLowerCase_idem)

text \<open>
  C2. Take any response body that carries a page listing, and the index the loader
  returns for it. Every entry of the index is the normalised form of a page of
  the listing whose \<^verbatim>\<open>isPrivate\<close> is not true; unless the index is empty, its
  entries are the pages that are not private, one entry per page, in the order of
  the listing. In every entry \<^verbatim>\<open>lowercaseTitle\<close> is the lower-cased \<^verbatim>\<open>title\<close> and
  every tag is in lower case (lower-casing it again changes nothing).
\<close>

theorem fetchWikiPages_index:
  assumes listing: "listingOf body = Some listing"
    and fetched: "fetchWikiPages (Inr body) = (console, Inr index)"
  shows "(\<forall>p\<in>set index. \<exists>raw\<in>set listing. \<not> isPrivate raw \<and> normalisedFrom raw p)
         \<and> (index = [] \<or> list_all2 normalisedFrom (filter (\<lambda>page. \<not> isPrivate page) listing) index)
         \<and> (\<forall>p\<in>set index. lowercaseTitle p = toLowerCase (title p)
                             \<and> (\<forall>t\<in>set (tags p). toLowerCase t = t))"
proof (cases "fetchWikiPages_try (Inr body)")
  case (Inl e)
  with fetched have "index = []"
    by (simp add: fetchWikiPages_def)
  then show ?thesis by simp
next
  case (Inr pages)
  with fetched have "index = pages"
    by (simp add: fetchWikiPages_def)
  with Inr fetchWikiPages_try_Inr [of "Inr body" index] listing
  have all2: "list_all2 normalisedFrom (filter (\<lambda>page. \<not> isPrivate page) listing) index"
    by auto
  have origin: "\<exists>raw\<in>set listing. \<not> isPrivate raw \<and> normalisedFrom raw p" if "p \<in> set index" for p
    using list_all2_right_origin [OF all2 that] by auto
  have lower: "lowercaseTitle p = toLowerCase (title p) \<and> (\<forall>t\<in>set (tags p). toLowerCase t = t)"
    if "p \<in> set index" for p
    using origin [OF that] normalisedFrom_lowercase by blast
  from all2 origin lower show ?thesis by blast
qed

theorem fetchWikiPages_index_witness:
  "listingOf example_body = Some example_listing
   \<and> fetchWikiPages (Inr example_body) = ([], Inr [setup_page])
   \<and> (\<exists>raw\<in>set example_listing. \<not> isPrivate raw \<and> normalisedFrom raw setup_page)
   \<and> list_all2 normalisedFrom (filter (\<lambda>page. \<not> isPrivate page) example_listing) [setup_page]
   \<and> lowercaseTitle setup_page = toLowerCase (title setup_page)
   \<and> toLowerCase ''install'' = ''install'' \<and> tags setup_page = [''install'']
   \<and> length (filter isPrivate example_listing) = 1"
proof -
  have h1: "listingOf example_body = Some example_listing" by code_simp
  have h2: "fetchWikiPages (Inr example_body) = ([], Inr [setup_page])" by code_simp
  have h3: "tags setup_page = [''install'']" by code_simp
  have h4: "length (filter isPrivate example_listing) = 1" by code_simp
  show ?thesis using h1 h2 h3 h4 fetchWikiPages_index [OF h1 h2] by simp
qed


section \<open>The search matcher: which pages are suggested\<close>

text \<open>
  C4, as the code has it. Take a query whose trimmed length is at least 3. A page
  matches exactly when the lower-cased query occurs in its \<^verbatim>\<open>lowercaseTitle\<close> or
  in the lower-casing of one of its tags. When no page of the index matches, the
  matcher returns the single \<^verbatim>\<open>no_results\<close> sentinel. Otherwise it returns one
  candidate for each of the first 25 matching pages, in the order of the index,
  with the page's title as name and the page's path as value; a matching page
  after the 25th gets no candidate.
\<close>

theorem search_matching:
  assumes "3 \<le> length (trim q)"
  shows "(\<forall>p. matches q p \<longleftrightarrow>
              ((\<exists>before after. lowercaseTitle p = before @ toLowerCase q @ after)
               \<or> (\<exists>tag\<in>set (tags p). \<exists>before after.
                      toLowerCase tag = before @ toLowerCase q @ after)))
         \<and> ((\<forall>p\<in>set wikiPages. \<not> matches q p) \<longrightarrow> search wikiPages q = [no_results])
         \<and> ((\<exists>p\<in>set wikiPages. matches q p) \<longrightarrow>
               search wikiPages q =
                 map (\<lambda>p. \<lparr>cname = title p, cvalue = path p\<rparr>)
                     (take 25 (filter (matches q) wikiPages)))
         \<and> cvalue no_results = JStr ''no_results''"
proof -
  from assms length_trim_le [of q] have len: "\<not> length q < 3" by simp
  have none: "search wikiPages q = [no_results]" if "\<forall>p\<in>set wikiPages. \<not> matches q p"
  proof -
    from that have "filter (matches q) wikiPages = []"
      by (simp add: filter_empty_conv)
    with len show ?thesis by (simp add: search_def)
  qed
  have some: "search wikiPages q =
      map (\<lambda>p. \<lparr>cname = title p, cvalue = path p\<rparr>) (take 25 (filter (matches q) wikiPages))"
    if "\<exists>p\<in>set wikiPages. matches q p"
  proof -
    from that have "filter (matches q) wikiPages \<noteq> []"
      by (simp add: filter_empty_conv)
    moreover have "toCandidate = (\<lambda>p. \<lparr>cname = title p, cvalue = path p\<rparr>)"
      by (rule ext) (simp add: toCandidate_def)
    ultimately show ?thesis using len by (simp add: search_def)
  qed
  have sentinel: "cvalue no_results = JStr ''no_results''"
    by (simp add: no_results_def)
  from matches_substring none some sentinel show ?thesis by blast
qed

theorem search_matching_witness:
  "3 \<le> length (trim ''set'') \<and> matches ''set'' setup_page
   \<and> search [setup_page] ''set'' = [\<lparr>cname = ''Setup Guide'', cvalue = JStr ''setup''\<rparr>]
   \<and> 3 \<le> length (trim ''INS'') \<and> matches ''INS'' setup_page
   \<and> search [setup_page] ''INS'' = [\<lparr>cname = ''Setup Guide'', cvalue = JStr ''setup''\<rparr>]
   \<and> 3 \<le> length (trim ''xyz'') \<and> \<not> matches ''xyz'' setup_page
   \<and> search [setup_page] ''xyz'' = [no_results]"
proof -
  have h1: "3 \<le> length (trim ''set'')" by code_simp
  have h2: "3 \<le> length (trim ''xyz'')" by code_simp
  have h3: "3 \<le> length (trim ''INS'')" by code_simp
  have m1: "matches ''set'' setup_page" by code_simp
  have m2: "\<not> matches ''xyz'' setup_page" by code_simp
  have m3: "matches ''INS'' setup_page" by code_simp
  have t: "title setup_page = ''Setup Guide''" "path setup_page = JStr ''setup''"
    by (simp_all add: setup_page_def)
  show ?thesis
    using h1 h2 h3 m1 m2 m3 t
      search_matching [OF h1, of "[setup_page]"]
      search_matching [OF h2, of "[setup_page]"]
      search_matching [OF h3, of "[setup_page]"]
    by simp
qed

text \<open>
  The claim as worded gives every matching page a candidate. In the index of 26
  pages that all match \<^verbatim>\<open>abc\<close>, the last page matches and no candidate carries
  its path.
\<close>

theorem search_each_match_counterexample:
  "3 \<le> length (trim ''abc'')
   \<and> numbered_page 25 \<in> set many_pages
   \<and> matches ''abc'' (numbered_page 25)
   \<and> path (numbered_page 25) \<notin> set (map cvalue (search many_pages ''abc''))
   \<and> length (filter (matches ''abc'') many_pages) = 26
   \<and> length (search many_pages ''abc'') = 25"
  by code_simp


section \<open>The dispatcher: commands\<close>







section \<open>The dispatcher: communities that are not admitted\<close>

text \<open>
  For an interaction whose community is absent or not on the allowlist the handler
  does the same on every index, and all it attempts is the denial reply, followed
  by a console line when the reply fails. When the community is present, or the
  reply succeeds, the handler returns normally.
\<close>

lemma unauthorized_interaction:
  assumes "unauthorized env i"
  shows "interactionCreate env wikiPages sdk i = interactionCreate env [] sdk i"
    and "fst (interactionCreate env wikiPages sdk i) \<in>
           {[], [Reply ''This bot is not authorized to operate in this server.'' True],
            [Reply ''This bot is not authorized to operate in this server.'' True,
             ConsoleLog (''Could not send unauthorized message in ''
                          @ guild_name (the (guild i)))]}"
    and "guild i \<noteq> None \<or> sdk = None \<Longrightarrow> snd (interactionCreate env wikiPages sdk i) = None"
  using assms by (auto simp: interactionCreate_def split: option.splits)

text \<open>
  C9. The claim has no exception escape the handler when the denial reply fails.
  For an interaction without a guild the \<^verbatim>\<open>catch\<close> clause of line 113 reads
  \<^verbatim>\<open>interaction.guild.name\<close> to build its log line, and that read throws: the
  handler ends with a TypeError and logs nothing.
\<close>

theorem unauthorized_reply_failure_escapes:
  "unauthorized example_env \<lparr>guild = None, kind = ChatInputCommand ''wiki'' ''setup''\<rparr>
   \<and> interactionCreate example_env [setup_page] (Some RequestError)
        \<lparr>guild = None, kind = ChatInputCommand ''wiki'' ''setup''\<rparr>
       = ([Reply ''This bot is not authorized to operate in this server.'' True], Some TypeError)"
  by code_simp

end
